theory Spec2Isabelle
  imports Main "HOL-Library.Word"
begin

section \<open>GoFind: a shallow embedding of the scan pipeline of main.go\<close>

text \<open>
  The program walks a directory, scans each file line by line for keywords and regular
  expressions, and sends one record per file either to an output channel or to an error
  channel. The embedding keeps the names of main.go. Strings are byte lists, as Go strings
  are. A channel is the list of the values sent on it so far, oldest first. The four
  counters of \<open>NumFiles\<close> are \<open>uint64\<close> in the source and 64-bit words here, so
  \<open>atomic.AddUint64\<close> is \<open>+ 1\<close> on a word.

  The Go standard library is not part of the repository. Its functions are modelled by what
  their documentation says, each at its first use below.
\<close>

subsection \<open>Library functions on strings\<close>

text \<open>\<open>strings.HasPrefix\<close> and \<open>strings.Contains\<close>: byte-wise, case-sensitive. The empty
  string is contained in every string.\<close>

fun HasPrefix :: "string \<Rightarrow> string \<Rightarrow> bool" where
  "HasPrefix s [] = True"
| "HasPrefix [] (c # p) = False"
| "HasPrefix (x # s) (c # p) = (x = c \<and> HasPrefix s p)"

fun Contains :: "string \<Rightarrow> string \<Rightarrow> bool" where
  "Contains [] substr = (substr = [])"
| "Contains (x # s) substr = (HasPrefix (x # s) substr \<or> Contains s substr)"

text \<open>\<open>strings.ToLower\<close>, on ASCII: the letters A to Z are mapped to a to z, every other
  byte is kept. (Go also maps upper-case letters beyond ASCII; paths with such letters are
  outside this model.)\<close>

definition lower_byte :: "char \<Rightarrow> char" where
  "lower_byte c =
     (if 65 \<le> (of_char c :: nat) \<and> (of_char c :: nat) \<le> 90
      then char_of ((of_char c :: nat) + 32) else c)"

definition ToLower :: "string \<Rightarrow> string" where
  "ToLower s = map lower_byte s"

text \<open>\<open>strings.TrimSpace\<close>, on ASCII: leading and trailing tab, line feed, vertical tab,
  form feed, carriage return and space are removed. (Go also removes the Unicode spaces
  beyond ASCII.)\<close>

definition isSpace :: "char \<Rightarrow> bool" where
  "isSpace c = ((of_char c :: nat) \<in> {9, 10, 11, 12, 13, 32})"

definition TrimSpace :: "string \<Rightarrow> string" where
  "TrimSpace s = rev (dropWhile isSpace (rev (dropWhile isSpace s)))"

text \<open>\<open>strings.Join\<close>.\<close>

fun Join :: "string list \<Rightarrow> string \<Rightarrow> string" where
  "Join [] sep = []"
| "Join [e] sep = e"
| "Join (e # f # es) sep = e @ sep @ Join (f # es) sep"

text \<open>The verb \<open>%d\<close> of \<open>fmt.Sprintf\<close> on a line number. The line counter of the source is
  a Go \<open>int\<close> that starts at 1 and grows by one per line; it is a natural number here (a
  file of \<open>2 ^ 63\<close> lines is out of reach).\<close>

definition digit_char :: "nat \<Rightarrow> char" where
  "digit_char d = char_of (48 + d)"

fun itoa :: "nat \<Rightarrow> string" where
  "itoa n = (if n < 10 then [digit_char n] else itoa (n div 10) @ [digit_char (n mod 10)])"

declare itoa.simps [simp del]

subsection \<open>Errors, panics and regular expressions\<close>

text \<open>Go \<open>error\<close> values the scan can meet: \<open>bufio.ErrTooLong\<close>, an \<open>*os.PathError\<close>
  (operation, path, cause) and any other error with its message. \<open>Error\<close> is the text the
  verb \<open>%v\<close> prints.\<close>

datatype error = ErrTooLong | PathError string string string | ErrorString string

fun Error :: "error \<Rightarrow> string" where
  "Error ErrTooLong = ''bufio.Scanner: token too long''"
| "Error (PathError opn path cause) = opn @ '' '' @ path @ '': '' @ cause"
| "Error (ErrorString msg) = msg"

text \<open>\<open>errors.As(err, &pathError)\<close> on these values.\<close>

fun isPathError :: "error \<Rightarrow> bool" where
  "isPathError (PathError opn path cause) = True"
| "isPathError e = False"

text \<open>The one run-time panic the scan loop can raise by itself: a method call through a nil
  \<open>*regexp.Regexp\<close>.\<close>

datatype panic = NilPointerDereference

fun panic_text :: "panic \<Rightarrow> string" where
  "panic_text NilPointerDereference =
     ''runtime error: invalid memory address or nil pointer dereference''"

text \<open>A compiled \<open>regexp.Regexp\<close>: its source text (what \<open>String()\<close> returns) and the
  location of its leftmost match in a string, if there is one (what \<open>FindStringIndex\<close>
  returns: start and end offsets). A \<open>*regexp.Regexp\<close> is a \<open>Regexp option\<close>, with
  \<open>None\<close> for the nil pointer.

  \<open>FindString\<close> is the library's: the text of the leftmost match, and the empty string
  when there is no match.\<close>

record Regexp =
  expr :: string
  loc :: "string \<Rightarrow> (nat \<times> nat) option"

definition FindString :: "Regexp \<Rightarrow> string \<Rightarrow> string" where
  "FindString re s = (case loc re s of None \<Rightarrow> [] | Some (a, b) \<Rightarrow> take (b - a) (drop a s))"

subsection \<open>Records, counters and channels\<close>

record FoundFile =
  FilePath :: string
  Keywords :: "string list"

record NumFiles =
  FoundFiles :: "64 word"
  SearchedFiles :: "64 word"
  NumErrors :: "64 word"
  NumIgnored :: "64 word"

text \<open>What a \<open>bufio.Scanner\<close> over an opened file yields: the lines \<open>Scan\<close> returns before
  it returns false, and then the value of \<open>Err()\<close> (\<open>None\<close> at a clean end of file,
  \<open>Some ErrTooLong\<close> when a line exceeds the 1 MiB buffer bound).\<close>

record Scanner =
  tokens :: "string list"
  Err :: "error option"

text \<open>The shared state of a run: the output channel, the error channel, the work queue of
  the pooled mode, the paths for which the unbounded mode started a task, and the counters.\<close>

record pipeline =
  outputChan :: "FoundFile list"
  errChan :: "string list"
  fileChan :: "FoundFile list"
  spawned :: "string list"
  fileCounter :: NumFiles

definition send_err :: "string \<Rightarrow> pipeline \<Rightarrow> pipeline" where
  "send_err msg st = st\<lparr>errChan := errChan st @ [msg]\<rparr>"

definition send_output :: "FoundFile \<Rightarrow> pipeline \<Rightarrow> pipeline" where
  "send_output file st = st\<lparr>outputChan := outputChan st @ [file]\<rparr>"

definition add_searched :: "pipeline \<Rightarrow> pipeline" where
  "add_searched st =
     st\<lparr>fileCounter := (fileCounter st)\<lparr>SearchedFiles := SearchedFiles (fileCounter st) + 1\<rparr>\<rparr>"

subsection \<open>The scan loop (lines 106-127 and 216-237)\<close>

text \<open>The two scanners run the same three nested loops and differ in one format string:
  \<open>NewThreadSearchFile\<close> formats a keyword hit with \<open>"%s::%d"\<close>, \<open>SameThreadSearchFile\<close>
  with \<open>"%s:%d"\<close>. The separator is the parameter \<open>sep\<close>. The loop state is the pair of
  \<open>file.Keywords\<close> and \<open>hit\<close>.\<close>

fun kw_loop :: "string \<Rightarrow> string list \<Rightarrow> string \<Rightarrow> nat \<Rightarrow> string list \<times> bool \<Rightarrow> string list \<times> bool" where
  "kw_loop sep [] lineText line acc = acc"
| "kw_loop sep (kw # kws) lineText line (ks, hit) =
     (if Contains lineText kw
      then kw_loop sep kws lineText line (ks @ [kw @ sep @ itoa line], True)
      else kw_loop sep kws lineText line (ks, hit))"

fun re_loop :: "Regexp option list \<Rightarrow> string \<Rightarrow> nat \<Rightarrow> string list \<times> bool \<Rightarrow> panic + string list \<times> bool" where
  "re_loop [] lineText line acc = Inr acc"
| "re_loop (None # regexs) lineText line acc = Inl NilPointerDereference"
| "re_loop (Some regex # regexs) lineText line (ks, hit) =
     (let match = FindString regex lineText in
      if match \<noteq> []
      then re_loop regexs lineText line (ks @ [match @ '':'' @ expr regex @ '':'' @ itoa line], True)
      else re_loop regexs lineText line (ks, hit))"

fun scan_loop :: "string \<Rightarrow> string list \<Rightarrow> Regexp option list \<Rightarrow> string list \<Rightarrow> nat \<Rightarrow> string list \<times> bool \<Rightarrow> panic + string list \<times> bool" where
  "scan_loop sep kws regexs [] line acc = Inr acc"
| "scan_loop sep kws regexs (lineText # rest) line acc =
     (case re_loop regexs lineText line (kw_loop sep kws lineText line acc) of
        Inl r \<Rightarrow> Inl r
      | Inr acc' \<Rightarrow> scan_loop sep kws regexs rest (line + 1) acc')"

subsection \<open>The two file scanners\<close>

text \<open>\<open>os.OpenFile\<close> is the parameter \<open>OpenFile\<close>: for a path, the error of the open or the
  scanner over the file. After the loop both scanners add one to \<open>searchedFiles\<close>, then
  look at \<open>scanner.Err()\<close> (lines 129-145 and 239-254, the same text in both:
  \<open>after_loop\<close>). A panic is caught by the deferred \<open>recover\<close> and reported on the
  error channel. The source sends the same message in both branches of each test on the
  error; the branches are kept. Log output and the wait group are left out.\<close>

definition after_loop :: "string \<Rightarrow> Scanner \<Rightarrow> FoundFile \<Rightarrow> bool \<Rightarrow> pipeline \<Rightarrow> pipeline" where
  "after_loop filePath scanner file hit st =
     (let st1 = add_searched st in
      case Err scanner of
        Some err \<Rightarrow>
          (if err = ErrTooLong then send_err (filePath @ '' = '' @ Error err) st1
           else send_err (filePath @ '' = '' @ Error err) st1)
      | None \<Rightarrow> (if hit then send_output file st1 else st1))"

definition NewThreadSearchFile :: "(string \<Rightarrow> error + Scanner) \<Rightarrow> string \<Rightarrow> string list \<Rightarrow> Regexp option list \<Rightarrow> pipeline \<Rightarrow> pipeline" where
  "NewThreadSearchFile OpenFile filePath kws regexs st =
     (case OpenFile filePath of
        Inl err \<Rightarrow>
          (if isPathError err then send_err (filePath @ '' = '' @ Error err) st
           else send_err (filePath @ '' = '' @ Error err) st)
      | Inr scanner \<Rightarrow>
          (case scan_loop ''::'' kws regexs (tokens scanner) 1 ([], False) of
             Inl r \<Rightarrow> send_err (filePath @ '' = '' @ panic_text r) st
           | Inr (ks, hit) \<Rightarrow>
               after_loop filePath scanner \<lparr>FilePath = TrimSpace filePath, Keywords = ks\<rparr> hit st))"

text \<open>The body of the loop of \<open>SameThreadSearchFile\<close> (the function literal of lines
  183-255) for one file received from the work queue, and the worker's loop over the files
  it receives.\<close>

definition SameThreadSearchOne :: "(string \<Rightarrow> error + Scanner) \<Rightarrow> string list \<Rightarrow> Regexp option list \<Rightarrow> FoundFile \<Rightarrow> pipeline \<Rightarrow> pipeline" where
  "SameThreadSearchOne OpenFile kws regexs file st =
     (let filePath = FilePath file in
      case OpenFile filePath of
        Inl err \<Rightarrow>
          (if isPathError err then send_err (filePath @ '' = '' @ Error err) st
           else send_err (filePath @ '' = '' @ Error err) st)
      | Inr scanner \<Rightarrow>
          (case scan_loop '':'' kws regexs (tokens scanner) 1 (Keywords file, False) of
             Inl r \<Rightarrow> send_err (filePath @ '' = '' @ panic_text r) st
           | Inr (ks, hit) \<Rightarrow> after_loop filePath scanner (file\<lparr>Keywords := ks\<rparr>) hit st))"

fun SameThreadSearchFile :: "(string \<Rightarrow> error + Scanner) \<Rightarrow> string list \<Rightarrow> Regexp option list \<Rightarrow> FoundFile list \<Rightarrow> pipeline \<Rightarrow> pipeline" where
  "SameThreadSearchFile OpenFile kws regexs [] st = st"
| "SameThreadSearchFile OpenFile kws regexs (file # files) st =
     SameThreadSearchFile OpenFile kws regexs files (SameThreadSearchOne OpenFile kws regexs file st)"

subsection \<open>The two directory walkers (lines 147-178 and 259-292)\<close>

text \<open>\<open>filepath.WalkDir\<close> calls \<open>walkFunc\<close> once per entry it reaches, with the path, whether
  the entry is a directory, and the error of reaching it. Both \<open>walkFunc\<close>s return nil on
  every path, so the walk is never cut short and the finder is a loop over the visits, in
  the order of the walk.\<close>

record visit =
  entryPath :: string
  entryIsDir :: bool
  entryErr :: "error option"

text \<open>The loop over \<open>ignored_types\<close> (lines 159-164 and 270-275): true when it returns
  from \<open>walkFunc\<close>, that is, when the file is skipped.\<close>

fun ignore_loop :: "string list \<Rightarrow> string \<Rightarrow> bool" where
  "ignore_loop [] path = False"
| "ignore_loop (ignore # rest) path =
     (if Contains (ToLower path) (ToLower ignore) then True else ignore_loop rest path)"

definition add_found :: "pipeline \<Rightarrow> pipeline" where
  "add_found st =
     st\<lparr>fileCounter := (fileCounter st)\<lparr>FoundFiles := FoundFiles (fileCounter st) + 1\<rparr>\<rparr>"

definition NewThread_walkFunc :: "string list \<Rightarrow> visit \<Rightarrow> pipeline \<Rightarrow> pipeline" where
  "NewThread_walkFunc ignored_types v st =
     (case entryErr v of
        Some e \<Rightarrow> send_err (entryPath v @ '' = '' @ Error e) st
      | None \<Rightarrow>
          if entryIsDir v then st
          else if ignore_loop ignored_types (entryPath v) then st
          else (add_found st)\<lparr>spawned := spawned st @ [entryPath v]\<rparr>)"

definition SameThread_walkFunc :: "string list \<Rightarrow> visit \<Rightarrow> pipeline \<Rightarrow> pipeline" where
  "SameThread_walkFunc ignored_types v st =
     (case entryErr v of
        Some e \<Rightarrow> send_err (entryPath v @ '' = '' @ Error e) st
      | None \<Rightarrow>
          if entryIsDir v then st
          else if ignore_loop ignored_types (entryPath v) then st
          else (add_found st)\<lparr>fileChan := fileChan st @ [\<lparr>FilePath = entryPath v, Keywords = []\<rparr>]\<rparr>)"

fun NewThreadFileFinder :: "string list \<Rightarrow> visit list \<Rightarrow> pipeline \<Rightarrow> pipeline" where
  "NewThreadFileFinder ignored_types [] st = st"
| "NewThreadFileFinder ignored_types (v # vs) st =
     NewThreadFileFinder ignored_types vs (NewThread_walkFunc ignored_types v st)"

fun SameThreadFileFinder :: "string list \<Rightarrow> visit list \<Rightarrow> pipeline \<Rightarrow> pipeline" where
  "SameThreadFileFinder ignored_types [] st = st"
| "SameThreadFileFinder ignored_types (v # vs) st =
     SameThreadFileFinder ignored_types vs (SameThread_walkFunc ignored_types v st)"

subsection \<open>The collectors (lines 34-66)\<close>

text \<open>\<open>FileCollector\<close> writes one line per record it receives; \<open>ErrorCollector\<close> writes the
  message and a line feed, and adds one to \<open>numErrors\<close>.\<close>

definition fileString :: "FoundFile \<Rightarrow> string" where
  "fileString file =
     ''Path: '' @ FilePath file @ '' | Keywords: '' @ Join (Keywords file) '' & '' @ [CHR 0x0A]"

definition FileCollector :: "FoundFile list \<Rightarrow> string list" where
  "FileCollector filesChan = map fileString filesChan"

fun ErrorCollector :: "string list \<Rightarrow> 64 word \<Rightarrow> string list \<times> 64 word" where
  "ErrorCollector [] numErrors = ([], numErrors)"
| "ErrorCollector (fileErrorPath # rest) numErrors =
     (case ErrorCollector rest (numErrors + 1) of
        (written, n) \<Rightarrow> ((fileErrorPath @ [CHR 0x0A]) # written, n))"

subsection \<open>Loading the regular expressions (lines 424-435)\<close>

text \<open>\<open>regexp.Compile\<close> is the parameter \<open>Compile\<close>; on an error it returns the nil pointer
  with the error. The loop state is the slice \<open>regexs\<close> and the diagnostics printed so
  far. The \<open>append\<close> of line 433 stands after the \<open>if err != nil\<close> block, not in an else
  branch.\<close>

fun load_regexs :: "(string \<Rightarrow> error + Regexp) \<Rightarrow> string list \<Rightarrow> Regexp option list \<times> string list \<Rightarrow> Regexp option list \<times> string list" where
  "load_regexs Compile [] acc = acc"
| "load_regexs Compile (text_line # rest) (regexs, printed) =
     (let cleanRE = TrimSpace text_line in
      if cleanRE \<noteq> [] then
        (case Compile cleanRE of
           Inl err \<Rightarrow>
             load_regexs Compile rest
               (regexs @ [None],
                printed @ [''Regex ('' @ cleanRE @ '') failed to compile, this regex will not be searched: ''
                            @ Error err @ [CHR 0x0A]])
         | Inr regex \<Rightarrow> load_regexs Compile rest (regexs @ [Some regex], printed))
      else load_regexs Compile rest (regexs, printed))"

subsection \<open>The progress monitor (lines 485-495)\<close>

text \<open>\<open>doneFunc\<close> ranges over \<open>doneChan\<close>. The argument is the list of the values sent on
  the channel before it is closed; the range loop ends when the list is used up. The
  inner \<open>for\<close> of lines 490-493 has no condition, no \<open>break\<close> and no \<open>return\<close>; its state
  is the number of status lines printed. A result \<open>None\<close> means that the function does not
  return.\<close>

partial_function (option) render_loop :: "nat \<Rightarrow> unit option" where
  "render_loop printed = render_loop (Suc printed)"

fun doneFunc :: "bool list \<Rightarrow> unit option" where
  "doneFunc [] = Some ()"
| "doneFunc (done_flag # rest) =
     (if done_flag then Some ()
      else (case render_loop 0 of None \<Rightarrow> None | Some u \<Rightarrow> doneFunc rest))"

subsection \<open>The match list as the specification describes it\<close>

text \<open>The specification's data model: a match descriptor holds the term (the keyword, or
  the pattern's source), for a pattern the matched text, and the line number. The Line
  Matcher returns, for one line, one descriptor per keyword contained in the line, in
  keyword-list order, then one descriptor per pattern whose first match is not empty, in
  pattern-list order. A file's match list is the concatenation over its lines, numbered
  from the given start.\<close>

datatype MatchDescriptor = KeywordMatch string nat | RegexMatch string string nat

fun lineNumber :: "MatchDescriptor \<Rightarrow> nat" where
  "lineNumber (KeywordMatch kw n) = n"
| "lineNumber (RegexMatch m pat n) = n"

fun render :: "string \<Rightarrow> MatchDescriptor \<Rightarrow> string" where
  "render sep (KeywordMatch kw n) = kw @ sep @ itoa n"
| "render sep (RegexMatch m pat n) = m @ '':'' @ pat @ '':'' @ itoa n"

definition spec_keyword_matches :: "string list \<Rightarrow> string \<Rightarrow> nat \<Rightarrow> MatchDescriptor list" where
  "spec_keyword_matches kws lineText n =
     concat (map (\<lambda>kw. if Contains lineText kw then [KeywordMatch kw n] else []) kws)"

definition spec_regex_matches :: "Regexp list \<Rightarrow> string \<Rightarrow> nat \<Rightarrow> MatchDescriptor list" where
  "spec_regex_matches res lineText n =
     concat (map (\<lambda>re. if FindString re lineText \<noteq> []
                        then [RegexMatch (FindString re lineText) (expr re) n] else []) res)"

definition spec_line_matches :: "string list \<Rightarrow> Regexp list \<Rightarrow> string \<Rightarrow> nat \<Rightarrow> MatchDescriptor list" where
  "spec_line_matches kws res lineText n =
     spec_keyword_matches kws lineText n @ spec_regex_matches res lineText n"

fun spec_file_matches :: "string list \<Rightarrow> Regexp list \<Rightarrow> nat \<Rightarrow> string list \<Rightarrow> MatchDescriptor list" where
  "spec_file_matches kws res n [] = []"
| "spec_file_matches kws res n (lineText # rest) =
     spec_line_matches kws res lineText n @ spec_file_matches kws res (Suc n) rest"

subsection \<open>Example inputs\<close>

text \<open>An empty pipeline, and two small patterns given by their leftmost match: a
  literal and \<open>a*\<close> (which matches the initial run of \<open>a\<close>, possibly empty, at offset 0).\<close>

definition st0 :: pipeline where
  "st0 = \<lparr>outputChan = [], errChan = [], fileChan = [], spawned = [],
          fileCounter = \<lparr>FoundFiles = 0, SearchedFiles = 0, NumErrors = 0, NumIgnored = 0\<rparr>\<rparr>"

fun Index :: "string \<Rightarrow> string \<Rightarrow> nat option" where
  "Index [] substr = (if substr = [] then Some 0 else None)"
| "Index (x # s) substr =
     (if HasPrefix (x # s) substr then Some 0 else map_option Suc (Index s substr))"

definition re_literal :: "string \<Rightarrow> Regexp" where
  "re_literal pat =
     \<lparr>expr = pat, loc = (\<lambda>s. map_option (\<lambda>i. (i, i + length pat)) (Index s pat))\<rparr>"

definition re_a_star :: Regexp where
  "re_a_star = \<lparr>expr = ''a*'', loc = (\<lambda>s. Some (0, length (takeWhile (\<lambda>c. c = CHR ''a'') s)))\<rparr>"

definition too_long_file :: "string \<Rightarrow> error + Scanner" where
  "too_long_file path = Inr \<lparr>tokens = [''an ERROR here''], Err = Some ErrTooLong\<rparr>"

definition denied_file :: "string \<Rightarrow> error + Scanner" where
  "denied_file path = Inl (PathError ''open'' path ''permission denied'')"

definition clean_file :: "string list \<Rightarrow> string \<Rightarrow> error + Scanner" where
  "clean_file ls path = Inr \<lparr>tokens = ls, Err = None\<rparr>"

definition compile_example :: "string \<Rightarrow> error + Regexp" where
  "compile_example s =
     (if s = ''('' then Inl (ErrorString ''error parsing regexp: missing closing ): `(`'')
      else Inr (re_literal s))"

definition ignored_visit :: visit where
  "ignored_visit = \<lparr>entryPath = ''/data/System32/foo.txt'', entryIsDir = False, entryErr = None\<rparr>"

section \<open>Properties of the loops\<close>

lemma HasPrefix_iff: "HasPrefix s p \<longleftrightarrow> (\<exists>q. s = p @ q)"
  by (induction s p rule: HasPrefix.induct) auto

lemma Contains_iff: "Contains s substr \<longleftrightarrow> (\<exists>p q. s = p @ substr @ q)"
proof (induction s)
  case Nil
  then show ?case by auto
next
  case (Cons x s)
  show ?case
  proof
    assume "Contains (x # s) substr"
    then consider "HasPrefix (x # s) substr" | "Contains s substr" by auto
    then show "\<exists>p q. x # s = p @ substr @ q"
    proof cases
      case 1
      then obtain q where "x # s = substr @ q" by (auto simp: HasPrefix_iff)
      then have "x # s = [] @ substr @ q" by simp
      then show ?thesis by blast
    next
      case 2
      then obtain p q where "s = p @ substr @ q" using Cons.IH by blast
      then have "x # s = (x # p) @ substr @ q" by simp
      then show ?thesis by blast
    qed
  next
    assume "\<exists>p q. x # s = p @ substr @ q"
    then obtain p q where pq: "x # s = p @ substr @ q" by blast
    show "Contains (x # s) substr"
    proof (cases p)
      case Nil
      then have "x # s = substr @ q" using pq by simp
      then have "HasPrefix (x # s) substr" unfolding HasPrefix_iff by blast
      then show ?thesis by simp
    next
      case (Cons y p')
      then have "s = p' @ substr @ q" using pq by simp
      then show ?thesis using Cons.IH by auto
    qed
  qed
qed

lemma kw_loop_eq:
  "kw_loop sep kws lineText n (ks, hit) =
     (ks @ map (render sep) (spec_keyword_matches kws lineText n),
      hit \<or> spec_keyword_matches kws lineText n \<noteq> [])"
  by (induction kws arbitrary: ks hit) (auto simp: spec_keyword_matches_def)

lemma re_loop_eq:
  "re_loop (map Some res) lineText n (ks, hit) =
     Inr (ks @ map (render sep) (spec_regex_matches res lineText n),
          hit \<or> spec_regex_matches res lineText n \<noteq> [])"
  by (induction res arbitrary: ks hit) (auto simp: spec_regex_matches_def Let_def)

lemma scan_loop_eq:
  "scan_loop sep kws (map Some res) ls n (ks, hit) =
     Inr (ks @ map (render sep) (spec_file_matches kws res n ls),
          hit \<or> spec_file_matches kws res n ls \<noteq> [])"
  by (induction ls arbitrary: n ks hit)
     (auto simp: kw_loop_eq re_loop_eq[where sep=sep] spec_line_matches_def)

lemma re_loop_nil_panics:
  "None \<in> set regexs \<Longrightarrow> re_loop regexs lineText n acc = Inl NilPointerDereference"
  by (induction regexs lineText n acc rule: re_loop.induct) (auto simp: Let_def)

lemma scan_loop_nil_panics:
  "None \<in> set regexs \<Longrightarrow> ls \<noteq> [] \<Longrightarrow> scan_loop sep kws regexs ls n acc = Inl NilPointerDereference"
  by (cases ls) (auto simp: re_loop_nil_panics)

lemma no_nil_map_Some: "None \<notin> set regexs \<Longrightarrow> regexs = map Some (map the regexs)"
  by (induction regexs) auto

lemma scan_loop_Inr_grows:
  assumes "scan_loop sep kws regexs ls n (ks, hit) = Inr (ks', hit')"
  shows "\<exists>new. ks' = ks @ new \<and> hit' = (hit \<or> new \<noteq> [])"
proof (cases "None \<in> set regexs")
  case True
  then have "ls = []" using assms scan_loop_nil_panics[of regexs ls sep kws n "(ks, hit)"] by auto
  then show ?thesis using assms by simp
next
  case False
  then have "regexs = map Some (map the regexs)" by (rule no_nil_map_Some)
  then have "scan_loop sep kws regexs ls n (ks, hit) =
     Inr (ks @ map (render sep) (spec_file_matches kws (map the regexs) n ls),
          hit \<or> spec_file_matches kws (map the regexs) n ls \<noteq> [])"
    using scan_loop_eq[of sep kws "map the regexs" ls n ks hit] by simp
  then show ?thesis using assms by auto
qed


lemma scan_loop_total:
  "scan_loop sep kws regexs ls n (ks, hit) =
     (if None \<in> set regexs \<and> ls \<noteq> [] then Inl NilPointerDereference
      else Inr (ks @ map (render sep) (spec_file_matches kws (map the regexs) n ls),
                hit \<or> spec_file_matches kws (map the regexs) n ls \<noteq> []))"
proof (cases "None \<in> set regexs")
  case True
  then show ?thesis by (cases ls) (auto simp: re_loop_nil_panics)
next
  case False
  then have "regexs = map Some (map the regexs)" by (rule no_nil_map_Some)
  then show ?thesis
    using False scan_loop_eq[of sep kws "map the regexs" ls n ks hit] by simp
qed

lemma line_matches_lineNumber:
  "d \<in> set (spec_line_matches kws res lineText n) \<Longrightarrow> lineNumber d = n"
  by (auto simp: spec_line_matches_def spec_keyword_matches_def spec_regex_matches_def
           split: if_splits)

lemma file_matches_lineNumber:
  "d \<in> set (spec_file_matches kws res n ls) \<Longrightarrow> n \<le> lineNumber d \<and> lineNumber d < n + length ls"
proof (induction ls arbitrary: n)
  case Nil
  then show ?case by simp
next
  case (Cons l ls)
  from Cons.prems consider "d \<in> set (spec_line_matches kws res l n)"
    | "d \<in> set (spec_file_matches kws res (Suc n) ls)" by auto
  then show ?case
  proof cases
    case 1
    then show ?thesis by (simp add: line_matches_lineNumber)
  next
    case 2
    then show ?thesis using Cons.IH[of "Suc n"] by auto
  qed
qed

lemma sorted_map_const: "\<forall>x \<in> set xs. f x = (n::nat) \<Longrightarrow> sorted (map f xs)"
  by (induction xs) auto

lemma file_matches_sorted: "sorted (map lineNumber (spec_file_matches kws res n ls))"
proof (induction ls arbitrary: n)
  case Nil
  then show ?case by simp
next
  case (Cons l ls)
  have a: "sorted (map lineNumber (spec_line_matches kws res l n))"
    by (rule sorted_map_const[where n=n]) (auto dest: line_matches_lineNumber)
  have b: "\<forall>x \<in> set (spec_line_matches kws res l n).
             \<forall>y \<in> set (spec_file_matches kws res (Suc n) ls). lineNumber x \<le> lineNumber y"
    using line_matches_lineNumber file_matches_lineNumber by fastforce
  show ?case using a b Cons.IH[of "Suc n"] by (auto simp: sorted_append)
qed

lemma file_matches_of_line:
  "filter (\<lambda>d. lineNumber d = m) (spec_file_matches kws res n ls) =
     (if n \<le> m \<and> m < n + length ls then spec_line_matches kws res (ls ! (m - n)) m else [])"
proof (induction ls arbitrary: n)
  case Nil
  then show ?case by auto
next
  case (Cons l ls)
  have here: "filter (\<lambda>d. lineNumber d = m) (spec_line_matches kws res l n) =
     (if m = n then spec_line_matches kws res l n else [])"
    by (auto simp: filter_empty_conv filter_id_conv dest: line_matches_lineNumber)
  show ?case
  proof (cases "m = n")
    case True
    have "filter (\<lambda>d. lineNumber d = m) (spec_file_matches kws res (Suc n) ls) = []"
      using True by (fastforce simp: filter_empty_conv dest: file_matches_lineNumber)
    then show ?thesis using True here by simp
  next
    case False
    have "(l # ls) ! (m - n) = ls ! (m - Suc n)" if "n \<le> m"
    proof -
      have "m - n = Suc (m - Suc n)" using that False by arith
      then show ?thesis by simp
    qed
    then show ?thesis using False here Cons.IH[of "Suc n"] by auto
  qed
qed

lemma concat_map_if: "concat (map (\<lambda>x. if P x then [f x] else []) xs) = map f (filter P xs)"
  by (induction xs) auto

lemma spec_keyword_matches_eq:
  "spec_keyword_matches kws lineText n = map (\<lambda>kw. KeywordMatch kw n) (filter (Contains lineText) kws)"
  by (simp add: spec_keyword_matches_def concat_map_if)

lemma spec_regex_matches_eq:
  "spec_regex_matches res lineText n =
     map (\<lambda>re. RegexMatch (FindString re lineText) (expr re) n)
         (filter (\<lambda>re. FindString re lineText \<noteq> []) res)"
  by (simp add: spec_regex_matches_def concat_map_if)

lemma file_matches_nonempty_iff:
  "spec_file_matches kws res n ls \<noteq> [] \<longleftrightarrow>
     (\<exists>l \<in> set ls. (\<exists>kw \<in> set kws. Contains l kw) \<or> (\<exists>re \<in> set res. FindString re l \<noteq> []))"
  by (induction ls arbitrary: n)
     (auto simp: spec_line_matches_def spec_keyword_matches_eq spec_regex_matches_eq
                 filter_empty_conv)

lemma re_loop_append:
  "re_loop (rs1 @ rs2) lineText n acc =
     (case re_loop rs1 lineText n acc of Inl r \<Rightarrow> Inl r | Inr acc' \<Rightarrow> re_loop rs2 lineText n acc')"
  by (induction rs1 lineText n acc rule: re_loop.induct) (auto simp: Let_def)

lemma re_loop_skip:
  "FindString re lineText = [] \<Longrightarrow>
     re_loop (Some re # rs) lineText n acc = re_loop rs lineText n acc"
  by (cases acc) (simp add: Let_def)

lemma render_loop_no_result:
  assumes "render_loop printed = Some y"
  shows False
  by (rule render_loop.raw_induct[where P = "\<lambda>_ _. False", OF _ assms]) blast

lemma render_loop_never_returns: "render_loop printed = None"
  using render_loop_no_result[of printed] by (cases "render_loop printed") auto

lemma NumIgnored_walkFunc:
  "NumIgnored (fileCounter (SameThread_walkFunc ignored_types v st)) = NumIgnored (fileCounter st)"
  "NumIgnored (fileCounter (NewThread_walkFunc ignored_types v st)) = NumIgnored (fileCounter st)"
  by (auto simp: SameThread_walkFunc_def NewThread_walkFunc_def send_err_def add_found_def
           split: option.splits)

lemma NumIgnored_unchanged:
  "NumIgnored (fileCounter (SameThreadFileFinder ignored_types vs st)) = NumIgnored (fileCounter st)"
  "NumIgnored (fileCounter (NewThreadFileFinder ignored_types vs st)) = NumIgnored (fileCounter st)"
  by (induction vs arbitrary: st) (auto simp: NumIgnored_walkFunc)

section \<open>The claims\<close>

lemmas scan_defs =
  NewThreadSearchFile_def SameThreadSearchOne_def after_loop_def add_searched_def
  send_err_def send_output_def

text \<open>
  C1. A file whose scan ends with \<open>bufio.ErrTooLong\<close> gets exactly one record on the error
  channel and none on the output channel, in both modes, whatever the lines read before
  the long one matched. When no pattern is nil the record is the path, \<open>" = "\<close> and the
  scanner's message.
\<close>

theorem C1_line_too_long_discards_matches:
  assumes "OpenFile filePath = Inr scanner" and "Err scanner = Some ErrTooLong"
  shows "(let st' = NewThreadSearchFile OpenFile filePath kws regexs st in
            outputChan st' = outputChan st \<and> (\<exists>msg. errChan st' = errChan st @ [msg]) \<and>
            (None \<notin> set regexs \<longrightarrow>
               errChan st' = errChan st @ [filePath @ '' = bufio.Scanner: token too long'']))
       \<and> (let st' = SameThreadSearchOne OpenFile kws regexs \<lparr>FilePath = filePath, Keywords = ks0\<rparr> st in
            outputChan st' = outputChan st \<and> (\<exists>msg. errChan st' = errChan st @ [msg]) \<and>
            (None \<notin> set regexs \<longrightarrow>
               errChan st' = errChan st @ [filePath @ '' = bufio.Scanner: token too long'']))"
  using assms by (simp add: scan_defs scan_loop_total Let_def)

theorem C1_witness:
  "too_long_file ''big.txt'' = Inr \<lparr>tokens = [''an ERROR here''], Err = Some ErrTooLong\<rparr>
   \<and> Contains ''an ERROR here'' ''ERROR''
   \<and> outputChan (NewThreadSearchFile too_long_file ''big.txt'' [''ERROR''] [] st0) = []
   \<and> errChan (NewThreadSearchFile too_long_file ''big.txt'' [''ERROR''] [] st0)
       = [''big.txt = bufio.Scanner: token too long'']
   \<and> outputChan (SameThreadSearchOne too_long_file [''ERROR''] []
         \<lparr>FilePath = ''big.txt'', Keywords = []\<rparr> st0) = []
   \<and> errChan (SameThreadSearchOne too_long_file [''ERROR''] []
         \<lparr>FilePath = ''big.txt'', Keywords = []\<rparr> st0)
       = [''big.txt = bufio.Scanner: token too long'']"
  using C1_line_too_long_discards_matches
          [of too_long_file "''big.txt''" "\<lparr>tokens = [''an ERROR here''], Err = Some ErrTooLong\<rparr>"
              "[''ERROR'']" "[]" st0 "[]"]
  by (simp add: too_long_file_def st0_def Let_def)

text \<open>
  C2. In both modes, a file whose open fails leaves \<open>SearchedFiles\<close> as it was, and a file
  whose read loop runs to its end (the loop returns rather than panics) adds exactly one to
  it, whatever \<open>scanner.Err()\<close> says afterwards.
\<close>

theorem C2_searchedFiles_after_loop:
  "(OpenFile filePath = Inl e \<longrightarrow>
      SearchedFiles (fileCounter (NewThreadSearchFile OpenFile filePath kws regexs st))
        = SearchedFiles (fileCounter st)
    \<and> SearchedFiles (fileCounter (SameThreadSearchOne OpenFile kws regexs
          \<lparr>FilePath = filePath, Keywords = ks0\<rparr> st))
        = SearchedFiles (fileCounter st))
   \<and> (OpenFile filePath = Inr scanner
        \<and> scan_loop ''::'' kws regexs (tokens scanner) 1 ([], False) = Inr r \<longrightarrow>
      SearchedFiles (fileCounter (NewThreadSearchFile OpenFile filePath kws regexs st))
        = SearchedFiles (fileCounter st) + 1)
   \<and> (OpenFile filePath = Inr scanner
        \<and> scan_loop '':'' kws regexs (tokens scanner) 1 (ks0, False) = Inr r' \<longrightarrow>
      SearchedFiles (fileCounter (SameThreadSearchOne OpenFile kws regexs
          \<lparr>FilePath = filePath, Keywords = ks0\<rparr> st))
        = SearchedFiles (fileCounter st) + 1)"
  by (auto simp: scan_defs Let_def split: option.splits prod.splits)

theorem C2_witness:
  "SearchedFiles (fileCounter (NewThreadSearchFile denied_file ''secret.txt'' [''ERROR''] [] st0)) = 0
   \<and> SearchedFiles (fileCounter (SameThreadSearchOne denied_file [''ERROR''] []
        \<lparr>FilePath = ''secret.txt'', Keywords = []\<rparr> st0)) = 0
   \<and> SearchedFiles (fileCounter (NewThreadSearchFile too_long_file ''big.txt'' [''ERROR''] [] st0)) = 1
   \<and> SearchedFiles (fileCounter (SameThreadSearchOne too_long_file [''ERROR''] []
        \<lparr>FilePath = ''big.txt'', Keywords = []\<rparr> st0)) = 1"
proof -
  have open_fails: "denied_file ''secret.txt'' = Inl (PathError ''open'' ''secret.txt'' ''permission denied'')"
    by (simp add: denied_file_def)
  have open_ok: "too_long_file ''big.txt'' = Inr \<lparr>tokens = [''an ERROR here''], Err = Some ErrTooLong\<rparr>"
    by (simp add: too_long_file_def)
  have loop1: "scan_loop ''::'' [''ERROR''] [] (tokens \<lparr>tokens = [''an ERROR here''], Err = Some ErrTooLong\<rparr>) 1 ([], False)
                 = Inr ([''ERROR::1''], True)"
    by code_simp
  have loop2: "scan_loop '':'' [''ERROR''] [] (tokens \<lparr>tokens = [''an ERROR here''], Err = Some ErrTooLong\<rparr>) 1 ([], False)
                 = Inr ([''ERROR:1''], True)"
    by code_simp
  have zero: "SearchedFiles (fileCounter st0) = 0" by (simp add: st0_def)
  show ?thesis
    using C2_searchedFiles_after_loop
            [of denied_file "''secret.txt''" "PathError ''open'' ''secret.txt'' ''permission denied''"
                "[''ERROR'']" "[]" st0 "[]"]
          C2_searchedFiles_after_loop
            [of too_long_file "''big.txt''" _ "[''ERROR'']" "[]" st0 "[]"
                "\<lparr>tokens = [''an ERROR here''], Err = Some ErrTooLong\<rparr>"
                "([''ERROR::1''], True)" "([''ERROR:1''], True)"]
          open_fails open_ok loop1 loop2 zero
    by simp
qed

text \<open>
  C3. In both modes one scan of one file has exactly one of three outcomes: nothing is sent;
  one record is sent on the output channel, with a non-empty match list, after an open
  that succeeded and a scan that ended without error, and nothing on the error channel;
  or one record is sent on the error channel and nothing on the output channel.

  Which outcome it is follows the file. A failed open sends the open error. A nil pattern
  met on the first line sends the recovered panic. A scan that ends with an error sends
  that error, whatever matched. A scan that ends without error sends the file with its
  match list when some line contains a keyword or gives a pattern a non-empty match, and
  sends nothing otherwise.
\<close>

theorem C3_one_outcome_per_scan:
  "(let st' = NewThreadSearchFile OpenFile filePath kws regexs st in
      ((outputChan st' = outputChan st \<and> errChan st' = errChan st)
       \<or> ((\<exists>f. outputChan st' = outputChan st @ [f] \<and> Keywords f \<noteq> []) \<and> errChan st' = errChan st
           \<and> (\<exists>scanner. OpenFile filePath = Inr scanner \<and> Err scanner = None))
       \<or> ((\<exists>msg. errChan st' = errChan st @ [msg]) \<and> outputChan st' = outputChan st))
      \<and> (case OpenFile filePath of
            Inl e \<Rightarrow>
              outputChan st' = outputChan st \<and> errChan st' = errChan st @ [filePath @ '' = '' @ Error e]
          | Inr scanner \<Rightarrow>
              if None \<in> set regexs \<and> tokens scanner \<noteq> []
              then outputChan st' = outputChan st
                   \<and> errChan st' = errChan st @ [filePath @ '' = '' @ panic_text NilPointerDereference]
              else (case Err scanner of
                      Some e \<Rightarrow>
                        outputChan st' = outputChan st
                        \<and> errChan st' = errChan st @ [filePath @ '' = '' @ Error e]
                    | None \<Rightarrow>
                        if \<exists>l \<in> set (tokens scanner).
                             (\<exists>kw \<in> set kws. Contains l kw)
                             \<or> (\<exists>re \<in> set (map the regexs). FindString re l \<noteq> [])
                        then outputChan st' = outputChan st @
                               [\<lparr>FilePath = TrimSpace filePath,
                                 Keywords = map (render ''::'')
                                   (spec_file_matches kws (map the regexs) 1 (tokens scanner))\<rparr>]
                             \<and> errChan st' = errChan st
                        else outputChan st' = outputChan st \<and> errChan st' = errChan st)))
   \<and> (let st' = SameThreadSearchOne OpenFile kws regexs \<lparr>FilePath = filePath, Keywords = []\<rparr> st in
      ((outputChan st' = outputChan st \<and> errChan st' = errChan st)
       \<or> ((\<exists>f. outputChan st' = outputChan st @ [f] \<and> Keywords f \<noteq> []) \<and> errChan st' = errChan st
           \<and> (\<exists>scanner. OpenFile filePath = Inr scanner \<and> Err scanner = None))
       \<or> ((\<exists>msg. errChan st' = errChan st @ [msg]) \<and> outputChan st' = outputChan st))
      \<and> (case OpenFile filePath of
            Inl e \<Rightarrow>
              outputChan st' = outputChan st \<and> errChan st' = errChan st @ [filePath @ '' = '' @ Error e]
          | Inr scanner \<Rightarrow>
              if None \<in> set regexs \<and> tokens scanner \<noteq> []
              then outputChan st' = outputChan st
                   \<and> errChan st' = errChan st @ [filePath @ '' = '' @ panic_text NilPointerDereference]
              else (case Err scanner of
                      Some e \<Rightarrow>
                        outputChan st' = outputChan st
                        \<and> errChan st' = errChan st @ [filePath @ '' = '' @ Error e]
                    | None \<Rightarrow>
                        if \<exists>l \<in> set (tokens scanner).
                             (\<exists>kw \<in> set kws. Contains l kw)
                             \<or> (\<exists>re \<in> set (map the regexs). FindString re l \<noteq> [])
                        then outputChan st' = outputChan st @
                               [\<lparr>FilePath = filePath,
                                 Keywords = map (render '':'')
                                   (spec_file_matches kws (map the regexs) 1 (tokens scanner))\<rparr>]
                             \<and> errChan st' = errChan st
                        else outputChan st' = outputChan st \<and> errChan st' = errChan st)))"
proof -
  have nonempty: "(\<exists>l \<in> set ls. (\<exists>kw \<in> set kws. Contains l kw)
                     \<or> (\<exists>re \<in> set (map the regexs). FindString re l \<noteq> []))
                  = (spec_file_matches kws (map the regexs) (Suc 0) ls \<noteq> [])" for ls
    by (simp only: file_matches_nonempty_iff)
  show ?thesis
    unfolding Let_def nonempty One_nat_def
    by (auto simp: scan_defs scan_loop_total Let_def split: sum.splits option.splits)
qed


theorem C3_witness:
  "outputChan (NewThreadSearchFile denied_file ''secret.txt'' [''ERROR''] [] st0) = []
   \<and> errChan (NewThreadSearchFile denied_file ''secret.txt'' [''ERROR''] [] st0)
       = [''secret.txt = open secret.txt: permission denied'']
   \<and> outputChan (NewThreadSearchFile (clean_file [''some text'']) ''a.txt'' [''ERROR''] [None] st0) = []
   \<and> errChan (NewThreadSearchFile (clean_file [''some text'']) ''a.txt'' [''ERROR''] [None] st0)
       = [''a.txt = runtime error: invalid memory address or nil pointer dereference'']
   \<and> outputChan (NewThreadSearchFile too_long_file ''big.txt'' [''ERROR''] [] st0) = []
   \<and> errChan (NewThreadSearchFile too_long_file ''big.txt'' [''ERROR''] [] st0)
       = [''big.txt = bufio.Scanner: token too long'']
   \<and> outputChan (NewThreadSearchFile (clean_file [''first'', ''contains ERROR here'']) ''a.txt'' [''ERROR''] [] st0)
       = [\<lparr>FilePath = ''a.txt'', Keywords = [''ERROR::2'']\<rparr>]
   \<and> errChan (NewThreadSearchFile (clean_file [''first'', ''contains ERROR here'']) ''a.txt'' [''ERROR''] [] st0) = []
   \<and> outputChan (NewThreadSearchFile (clean_file [''nothing here'']) ''c.bin'' [''ERROR''] [] st0) = []
   \<and> errChan (NewThreadSearchFile (clean_file [''nothing here'']) ''c.bin'' [''ERROR''] [] st0) = []
   \<and> outputChan (SameThreadSearchOne (clean_file [''first'', ''contains ERROR here'']) [''ERROR''] []
         \<lparr>FilePath = ''a.txt'', Keywords = []\<rparr> st0)
       = [\<lparr>FilePath = ''a.txt'', Keywords = [''ERROR:2'']\<rparr>]
   \<and> errChan (SameThreadSearchOne too_long_file [''ERROR''] [] \<lparr>FilePath = ''big.txt'', Keywords = []\<rparr> st0)
       = [''big.txt = bufio.Scanner: token too long'']"
proof -
  have chans: "outputChan st0 = []" "errChan st0 = []" by (simp_all add: st0_def)
  have trim: "TrimSpace ''a.txt'' = ''a.txt''" by code_simp
  have hit: "Contains ''contains ERROR here'' ''ERROR''" by code_simp
  have miss: "\<not> Contains ''first'' ''ERROR''" "\<not> Contains ''nothing here'' ''ERROR''" by code_simp+
  have ds: "spec_file_matches [''ERROR''] [] (Suc 0) [''first'', ''contains ERROR here'']
              = [KeywordMatch ''ERROR'' 2]"
    by (simp add: spec_line_matches_def spec_keyword_matches_eq spec_regex_matches_eq hit miss
             del: Contains.simps)
  have two: "itoa 2 = ''2''" by code_simp
  note denied = C3_one_outcome_per_scan
    [where OpenFile = denied_file and filePath = "''secret.txt''" and kws = "[''ERROR'']"
       and regexs = "[]" and st = st0]
  note nil_pattern = C3_one_outcome_per_scan
    [where OpenFile = "clean_file [''some text'']" and filePath = "''a.txt''" and kws = "[''ERROR'']"
       and regexs = "[None]" and st = st0]
  note too_long = C3_one_outcome_per_scan
    [where OpenFile = too_long_file and filePath = "''big.txt''" and kws = "[''ERROR'']"
       and regexs = "[]" and st = st0]
  note matched = C3_one_outcome_per_scan
    [where OpenFile = "clean_file [''first'', ''contains ERROR here'']" and filePath = "''a.txt''"
       and kws = "[''ERROR'']" and regexs = "[]" and st = st0]
  note unmatched = C3_one_outcome_per_scan
    [where OpenFile = "clean_file [''nothing here'']" and filePath = "''c.bin''"
       and kws = "[''ERROR'']" and regexs = "[]" and st = st0]
  have a: "outputChan (NewThreadSearchFile denied_file ''secret.txt'' [''ERROR''] [] st0) = []
     \<and> errChan (NewThreadSearchFile denied_file ''secret.txt'' [''ERROR''] [] st0)
         = [''secret.txt = open secret.txt: permission denied'']"
    using denied by (simp add: denied_file_def chans Let_def)
  have b: "outputChan (NewThreadSearchFile (clean_file [''some text'']) ''a.txt'' [''ERROR''] [None] st0) = []
     \<and> errChan (NewThreadSearchFile (clean_file [''some text'']) ''a.txt'' [''ERROR''] [None] st0)
         = [''a.txt = runtime error: invalid memory address or nil pointer dereference'']"
    using nil_pattern by (simp add: clean_file_def chans Let_def)
  have c: "outputChan (NewThreadSearchFile too_long_file ''big.txt'' [''ERROR''] [] st0) = []
     \<and> errChan (NewThreadSearchFile too_long_file ''big.txt'' [''ERROR''] [] st0)
         = [''big.txt = bufio.Scanner: token too long'']
     \<and> errChan (SameThreadSearchOne too_long_file [''ERROR''] [] \<lparr>FilePath = ''big.txt'', Keywords = []\<rparr> st0)
         = [''big.txt = bufio.Scanner: token too long'']"
    using too_long by (simp add: too_long_file_def chans Let_def)
  have d: "outputChan (NewThreadSearchFile (clean_file [''first'', ''contains ERROR here'']) ''a.txt'' [''ERROR''] [] st0)
         = [\<lparr>FilePath = ''a.txt'', Keywords = [''ERROR::2'']\<rparr>]
     \<and> errChan (NewThreadSearchFile (clean_file [''first'', ''contains ERROR here'']) ''a.txt'' [''ERROR''] [] st0) = []
     \<and> outputChan (SameThreadSearchOne (clean_file [''first'', ''contains ERROR here'']) [''ERROR''] []
           \<lparr>FilePath = ''a.txt'', Keywords = []\<rparr> st0)
         = [\<lparr>FilePath = ''a.txt'', Keywords = [''ERROR:2'']\<rparr>]"
    using matched
    by (simp add: clean_file_def chans Let_def hit miss ds trim two
             del: Contains.simps spec_file_matches.simps)
  have e: "outputChan (NewThreadSearchFile (clean_file [''nothing here'']) ''c.bin'' [''ERROR''] [] st0) = []
     \<and> errChan (NewThreadSearchFile (clean_file [''nothing here'']) ''c.bin'' [''ERROR''] [] st0) = []"
    using unmatched by (simp add: clean_file_def chans Let_def miss del: Contains.simps)
  show ?thesis using a b c d e by (simp only: simp_thms)
qed

text \<open>
  C4. Both finders skip the file \<open>/data/System32/foo.txt\<close> under the ignore string
  \<open>System32\<close> (it is not counted as found and not dispatched), and \<open>NumIgnored\<close> is still 0
  afterwards.
\<close>

theorem C4_ignored_file_is_not_counted:
  "ignore_loop [''System32''] (entryPath ignored_visit)
   \<and> SameThreadFileFinder [''System32''] [ignored_visit] st0 = st0
   \<and> NewThreadFileFinder [''System32''] [ignored_visit] st0 = st0
   \<and> NumIgnored (fileCounter (SameThreadFileFinder [''System32''] [ignored_visit] st0)) = 0
   \<and> NumIgnored (fileCounter (NewThreadFileFinder [''System32''] [ignored_visit] st0)) = 0"
proof -
  have skip: "ignore_loop [''System32''] (entryPath ignored_visit)" by code_simp
  show ?thesis
    using skip
    by (simp add: SameThread_walkFunc_def NewThread_walkFunc_def ignored_visit_def st0_def
             del: ignore_loop.simps)
qed

text \<open>
  C5. With a regex file of the two lines \<open>abc\<close> and \<open>(\<close>, the second of which does not
  compile, the loop of \<open>main\<close> prints the diagnostic and still appends the nil pointer to the
  list. A scanner handed this list panics on the first line of a file, and the file ends
  on the error channel without being counted as searched.
\<close>

theorem C5_failed_pattern_stays_in_list:
  "map (map_option expr) (fst (load_regexs compile_example [''abc'', ''(''] ([], [])))
     = [Some ''abc'', None]
   \<and> snd (load_regexs compile_example [''abc'', ''(''] ([], []))
     = [''Regex (() failed to compile, this regex will not be searched: error parsing regexp: missing closing ): `(`''
         @ [CHR 0x0A]]
   \<and> errChan (NewThreadSearchFile (clean_file [''some text'']) ''a.txt'' [''ERROR'']
         (fst (load_regexs compile_example [''abc'', ''(''] ([], []))) st0)
     = [''a.txt = runtime error: invalid memory address or nil pointer dereference'']
   \<and> SearchedFiles (fileCounter (NewThreadSearchFile (clean_file [''some text'']) ''a.txt'' [''ERROR'']
         (fst (load_regexs compile_example [''abc'', ''(''] ([], []))) st0)) = 0"
  by code_simp

text \<open>
  C6. For a file \<open>a.txt\<close> whose second line contains the keyword \<open>ERROR\<close>, the unbounded
  mode writes the descriptor \<open>ERROR::2\<close>, with two colons, and the pooled mode writes
  \<open>ERROR:2\<close>.
\<close>

theorem C6_keyword_descriptor_two_colons:
  "FileCollector (outputChan (NewThreadSearchFile (clean_file [''first line'', ''contains ERROR here''])
       ''a.txt'' [''ERROR''] [] st0))
     = [''Path: a.txt | Keywords: ERROR::2'' @ [CHR 0x0A]]
   \<and> FileCollector (outputChan (SameThreadSearchOne (clean_file [''first line'', ''contains ERROR here''])
       [''ERROR''] [] \<lparr>FilePath = ''a.txt'', Keywords = []\<rparr> st0))
     = [''Path: a.txt | Keywords: ERROR:2'' @ [CHR 0x0A]]"
  by code_simp

text \<open>
  C7. On one line, the keyword loop appends one descriptor for each entry of the keyword
  list that the line contains, and none for the others: the test is containment, so the
  number of occurrences does not matter. The pattern loop appends one descriptor for each
  pattern whose \<open>FindString\<close> (the text of the leftmost match) is not empty, built from that
  one text.
\<close>

theorem C7_one_descriptor_per_term_per_line:
  "kw_loop sep kws lineText n (ks, hit) =
     (ks @ concat (map (\<lambda>kw. if Contains lineText kw then [kw @ sep @ itoa n] else []) kws),
      hit \<or> (\<exists>kw \<in> set kws. Contains lineText kw))
   \<and> re_loop (map Some res) lineText n (ks, hit) =
     Inr (ks @ concat (map (\<lambda>re. if FindString re lineText \<noteq> []
                                   then [FindString re lineText @ '':'' @ expr re @ '':'' @ itoa n]
                                   else []) res),
          hit \<or> (\<exists>re \<in> set res. FindString re lineText \<noteq> []))"
proof
  show "kw_loop sep kws lineText n (ks, hit) =
     (ks @ concat (map (\<lambda>kw. if Contains lineText kw then [kw @ sep @ itoa n] else []) kws),
      hit \<or> (\<exists>kw \<in> set kws. Contains lineText kw))"
    by (induction kws arbitrary: ks hit) auto
  show "re_loop (map Some res) lineText n (ks, hit) =
     Inr (ks @ concat (map (\<lambda>re. if FindString re lineText \<noteq> []
                                   then [FindString re lineText @ '':'' @ expr re @ '':'' @ itoa n]
                                   else []) res),
          hit \<or> (\<exists>re \<in> set res. FindString re lineText \<noteq> []))"
    by (induction res arbitrary: ks hit) (auto simp: Let_def)
qed

theorem C7_witness:
  "kw_loop '':'' [''ab''] ''xab ab ab'' 7 ([], False) = ([''ab:7''], True)
   \<and> re_loop [Some (re_literal ''ab'')] ''xab ab ab'' 7 ([], False) = Inr ([''ab:ab:7''], True)"
proof -
  have seven: "itoa 7 = ''7''" by code_simp
  have c: "Contains ''xab ab ab'' ''ab''" by code_simp
  have f: "FindString (re_literal ''ab'') ''xab ab ab'' = ''ab''" by code_simp
  have e: "expr (re_literal ''ab'') = ''ab''" by (simp add: re_literal_def)
  show ?thesis
    using C7_one_descriptor_per_term_per_line
            [of "'':''" "[''ab'']" "''xab ab ab''" 7 "[]" False "[re_literal ''ab'']"]
    by (simp add: seven c f e)
qed

text \<open>
  C8. When a scan sends a file on the output channel, the file's match list is the
  rendering of the list \<open>ds\<close> of descriptors of the lines 1, 2, ... in this order: the line
  numbers of \<open>ds\<close> never decrease, and the descriptors of line \<open>m\<close> are the keywords
  contained in the line, in keyword-list order, followed by the patterns with a non-empty
  match, in pattern-list order.
\<close>

theorem C8_matches_in_line_then_list_order:
  assumes "OpenFile filePath = Inr scanner"
  shows "let ds = spec_file_matches kws (map the regexs) 1 (tokens scanner) in
     (outputChan (NewThreadSearchFile OpenFile filePath kws regexs st) = outputChan st @ [f]
        \<longrightarrow> Keywords f = map (render ''::'') ds)
   \<and> (outputChan (SameThreadSearchOne OpenFile kws regexs \<lparr>FilePath = filePath, Keywords = []\<rparr> st)
          = outputChan st @ [g]
        \<longrightarrow> Keywords g = map (render '':'') ds)
   \<and> sorted (map lineNumber ds)
   \<and> (\<forall>m. filter (\<lambda>d. lineNumber d = m) ds =
         (if 1 \<le> m \<and> m \<le> length (tokens scanner)
          then map (\<lambda>kw. KeywordMatch kw m) (filter (Contains (tokens scanner ! (m - 1))) kws)
               @ map (\<lambda>re. RegexMatch (FindString re (tokens scanner ! (m - 1))) (expr re) m)
                     (filter (\<lambda>re. FindString re (tokens scanner ! (m - 1)) \<noteq> []) (map the regexs))
          else []))"
proof -
  define ds where "ds = spec_file_matches kws (map the regexs) 1 (tokens scanner)"
  have new_thread: "Keywords f = map (render ''::'') ds"
    if "outputChan (NewThreadSearchFile OpenFile filePath kws regexs st) = outputChan st @ [f]"
    using that assms
    by (auto simp: scan_defs scan_loop_total ds_def Let_def split: if_splits option.splits)
  have same_thread: "Keywords g = map (render '':'') ds"
    if "outputChan (SameThreadSearchOne OpenFile kws regexs \<lparr>FilePath = filePath, Keywords = []\<rparr> st)
          = outputChan st @ [g]"
    using that assms
    by (auto simp: scan_defs scan_loop_total ds_def Let_def split: if_splits option.splits)
  have line_order: "sorted (map lineNumber ds)"
    unfolding ds_def by (rule file_matches_sorted)
  have per_line: "filter (\<lambda>d. lineNumber d = m) ds =
         (if 1 \<le> m \<and> m \<le> length (tokens scanner)
          then map (\<lambda>kw. KeywordMatch kw m) (filter (Contains (tokens scanner ! (m - 1))) kws)
               @ map (\<lambda>re. RegexMatch (FindString re (tokens scanner ! (m - 1))) (expr re) m)
                     (filter (\<lambda>re. FindString re (tokens scanner ! (m - 1)) \<noteq> []) (map the regexs))
          else [])" for m
  proof -
    have "(1 \<le> m \<and> m < 1 + length (tokens scanner)) = (1 \<le> m \<and> m \<le> length (tokens scanner))"
      by arith
    then show ?thesis
      unfolding ds_def file_matches_of_line spec_line_matches_def
        spec_keyword_matches_eq spec_regex_matches_eq
      by simp
  qed
  show ?thesis
    using new_thread same_thread line_order per_line unfolding Let_def ds_def by blast
qed

theorem C8_witness:
  "outputChan (NewThreadSearchFile (clean_file [''first line'', ''contains ERROR here'', ''id 123''])
       ''a.txt'' [''ERROR'', ''here''] [Some (re_literal ''123'')] st0)
     = [\<lparr>FilePath = ''a.txt'', Keywords = [''ERROR::2'', ''here::2'', ''123:123:3'']\<rparr>]
   \<and> map (render ''::'')
         (spec_file_matches [''ERROR'', ''here''] (map the [Some (re_literal ''123'')]) 1
            [''first line'', ''contains ERROR here'', ''id 123''])
     = [''ERROR::2'', ''here::2'', ''123:123:3'']
   \<and> outputChan (SameThreadSearchOne (clean_file [''first line'', ''contains ERROR here'', ''id 123''])
       [''ERROR'', ''here''] [Some (re_literal ''123'')] \<lparr>FilePath = ''a.txt'', Keywords = []\<rparr> st0)
     = [\<lparr>FilePath = ''a.txt'', Keywords = [''ERROR:2'', ''here:2'', ''123:123:3'']\<rparr>]
   \<and> map (render '':'')
         (spec_file_matches [''ERROR'', ''here''] (map the [Some (re_literal ''123'')]) 1
            [''first line'', ''contains ERROR here'', ''id 123''])
     = [''ERROR:2'', ''here:2'', ''123:123:3'']"
proof -
  let ?ls = "[''first line'', ''contains ERROR here'', ''id 123'']"
  let ?F = "\<lparr>FilePath = ''a.txt'', Keywords = [''ERROR::2'', ''here::2'', ''123:123:3'']\<rparr>"
  let ?G = "\<lparr>FilePath = ''a.txt'', Keywords = [''ERROR:2'', ''here:2'', ''123:123:3'']\<rparr>"
  have opened: "clean_file ?ls ''a.txt'' = Inr \<lparr>tokens = ?ls, Err = None\<rparr>"
    by (simp add: clean_file_def)
  have sent: "outputChan (NewThreadSearchFile (clean_file ?ls) ''a.txt'' [''ERROR'', ''here'']
                 [Some (re_literal ''123'')] st0) = [?F]"
    by code_simp
  have sent_pooled: "outputChan (SameThreadSearchOne (clean_file ?ls) [''ERROR'', ''here'']
                 [Some (re_literal ''123'')] \<lparr>FilePath = ''a.txt'', Keywords = []\<rparr> st0) = [?G]"
    by code_simp
  have empty: "outputChan st0 = []" by (simp add: st0_def)
  note inst = C8_matches_in_line_then_list_order
                [of "clean_file ?ls" "''a.txt''" "\<lparr>tokens = ?ls, Err = None\<rparr>"
                    "[''ERROR'', ''here'']" "[Some (re_literal ''123'')]" st0 ?F ?G,
                 OF opened, unfolded Let_def]
  from inst sent empty have unbounded:
    "Keywords ?F = map (render ''::'')
       (spec_file_matches [''ERROR'', ''here''] (map the [Some (re_literal ''123'')]) 1
          (tokens \<lparr>tokens = ?ls, Err = None\<rparr>))"
    by (simp only: append_Nil simp_thms)
  from inst sent_pooled empty have pooled:
    "Keywords ?G = map (render '':'')
       (spec_file_matches [''ERROR'', ''here''] (map the [Some (re_literal ''123'')]) 1
          (tokens \<lparr>tokens = ?ls, Err = None\<rparr>))"
    by (simp only: append_Nil simp_thms)
  show ?thesis using unbounded pooled sent sent_pooled by simp
qed

text \<open>
  C9. \<open>main\<close> sends \<open>false\<close> on \<open>doneChan\<close> and closes the channel at the end of the run.
  On the value \<open>false\<close> \<open>doneFunc\<close> enters the inner loop, which has no exit: it does not
  return, whatever is sent or closed afterwards.
\<close>

theorem C9_monitor_does_not_return:
  "doneFunc [False] = None \<and> doneFunc (False # rest) = None"
  by (simp add: render_loop_never_returns)

text \<open>
  C10. A pattern whose leftmost match on the line is empty (it starts and ends at the same
  offset) makes \<open>FindString\<close> return the empty string, and the pattern loop then treats it
  as it treats a pattern with no match: the loop's result is the one it has without the
  pattern, and the one it has with a pattern that matches nowhere in its place.
\<close>

theorem C10_empty_match_is_no_match:
  assumes "loc re lineText = Some (a, a)"
  shows "FindString re lineText = []
   \<and> re_loop (rs1 @ Some re # rs2) lineText n acc = re_loop (rs1 @ rs2) lineText n acc
   \<and> (loc re' lineText = None \<longrightarrow>
        re_loop (rs1 @ Some re # rs2) lineText n acc = re_loop (rs1 @ Some re' # rs2) lineText n acc)"
proof -
  have empty: "FindString re lineText = []" using assms by (simp add: FindString_def)
  have none: "FindString re' lineText = []" if "loc re' lineText = None"
    using that by (simp add: FindString_def)
  show ?thesis
    using empty none
    by (auto simp: re_loop_append re_loop_skip split: sum.splits)
qed

theorem C10_witness:
  "loc re_a_star ''bbb'' = Some (0, 0)
   \<and> loc (re_literal ''zz'') ''bbb'' = None
   \<and> FindString re_a_star ''bbb'' = []
   \<and> re_loop [Some re_a_star, Some (re_literal ''b'')] ''bbb'' 3 ([], False) = Inr ([''b:b:3''], True)
   \<and> re_loop [Some (re_literal ''zz''), Some (re_literal ''b'')] ''bbb'' 3 ([], False) = Inr ([''b:b:3''], True)"
proof -
  have l1: "loc re_a_star ''bbb'' = Some (0, 0)" by (simp add: re_a_star_def)
  have l2: "loc (re_literal ''zz'') ''bbb'' = None" by (simp add: re_literal_def)
  have r: "re_loop [Some (re_literal ''b'')] ''bbb'' 3 ([], False) = Inr ([''b:b:3''], True)"
    by code_simp
  note inst = C10_empty_match_is_no_match
                [OF l1, of "[]" "[Some (re_literal ''b'')]" 3 "([], False)" "re_literal ''zz''"]
  from inst have e0: "FindString re_a_star ''bbb'' = []" by (rule conjunct1)
  from inst have e1: "re_loop [Some re_a_star, Some (re_literal ''b'')] ''bbb'' 3 ([], False)
                        = re_loop [Some (re_literal ''b'')] ''bbb'' 3 ([], False)"
    by (simp only: append_Nil)
  from inst l2 have e2: "re_loop [Some re_a_star, Some (re_literal ''b'')] ''bbb'' 3 ([], False)
                        = re_loop [Some (re_literal ''zz''), Some (re_literal ''b'')] ''bbb'' 3 ([], False)"
    unfolding append_Nil by blast
  show ?thesis
    using l1 l2 e0 e1 e2 r by (simp only: simp_thms)
qed

end
